theory Spec2Isabelle
  imports Complex_Main
begin

section \<open>Python values and exceptions used by the worker\<close>

text \<open>
  The worker (\<^verbatim>\<open>src/worker/worker.py\<close>) is Python. Every exception it can meet is a
  subclass of \<^verbatim>\<open>Exception\<close>, which is what its handlers catch; the model keeps the
  class only. \<open>RemoteError\<close> stands for whatever a collaborator (the embedding provider,
  the vector store, the HTTP client) raises.
\<close>

datatype exn =
    ValueError
  | TypeError
  | KeyError
  | IndexError
  | AttributeError
  | UnboundLocalError
  | RemoteError

section \<open>The chunker\<close>

text \<open>
  Python's slice \<^verbatim>\<open>xs[a:b]\<close> on a sequence of length \<open>n\<close>: a negative bound counts
  from the end, and both bounds are clamped to \<open>0..n\<close>; a slice never raises.
\<close>

definition slice_index :: "nat \<Rightarrow> int \<Rightarrow> nat" where
  "slice_index n i = (if i < 0 then nat (max 0 (int n + i)) else min n (nat i))"

definition py_slice :: "'a list \<Rightarrow> int \<Rightarrow> int \<Rightarrow> 'a list" where
  "py_slice xs a b =
     (let lo = slice_index (length xs) a; hi = slice_index (length xs) b
      in take (hi - lo) (drop lo xs))"

text \<open>
  \<^verbatim>\<open>range(start, stop, step)\<close>: a zero step raises \<^verbatim>\<open>ValueError\<close>; a positive step
  counts up while the value is below \<open>stop\<close>, a negative one counts down while it is
  above.
\<close>

function range_up :: "int \<Rightarrow> int \<Rightarrow> int \<Rightarrow> int list" where
  "range_up i stop step =
     (if 0 < step \<and> i < stop then i # range_up (i + step) stop step else [])"
  by pat_completeness auto
termination
  by (relation "measure (\<lambda>(i, stop, step). nat (stop - i))") auto

function range_down :: "int \<Rightarrow> int \<Rightarrow> int \<Rightarrow> int list" where
  "range_down i stop step =
     (if step < 0 \<and> stop < i then i # range_down (i + step) stop step else [])"
  by pat_completeness auto
termination
  by (relation "measure (\<lambda>(i, stop, step). nat (i - stop))") auto

definition py_range :: "int \<Rightarrow> int \<Rightarrow> int \<Rightarrow> exn + int list" where
  "py_range start stop step =
     (if step = 0 then Inl ValueError
      else if 0 < step then Inr (range_up start stop step)
      else Inr (range_down start stop step))"

text \<open>
  \<^verbatim>\<open>
  def chunk_data(data, chunk_size, chunk_overlap):
      chunks = []
      for i in range(0, len(data), chunk_size - chunk_overlap):
          chunks.append(data[i:i + chunk_size])
      return chunks
  \<close>
  The loop body cannot raise, so the loop is a \<open>map\<close> over the range.
\<close>

definition chunk_data :: "'a list \<Rightarrow> int \<Rightarrow> int \<Rightarrow> exn + 'a list list" where
  "chunk_data data chunk_size chunk_overlap =
     (case py_range 0 (int (length data)) (chunk_size - chunk_overlap) of
        Inl e \<Rightarrow> Inl e
      | Inr starts \<Rightarrow> Inr (map (\<lambda>i. py_slice data i (i + chunk_size)) starts))"

section \<open>Values exchanged with the collaborators\<close>

text \<open>
  The provider's response and the vector store's acknowledgement are JSON-like Python
  values. The worker only subscripts them, iterates over them and tests their
  truthiness, so these three operations are modelled with the exceptions Python raises.
\<close>

datatype pyval =
    PNone
  | PBool bool
  | PNum real
  | PStr string
  | PList "pyval list"
  | PDict "(string \<times> pyval) list"

fun truthy :: "pyval \<Rightarrow> bool" where
  "truthy PNone = False"
| "truthy (PBool b) = b"
| "truthy (PNum x) = (x \<noteq> 0)"
| "truthy (PStr s) = (s \<noteq> [])"
| "truthy (PList xs) = (xs \<noteq> [])"
| "truthy (PDict kvs) = (kvs \<noteq> [])"

text \<open>\<^verbatim>\<open>v[key]\<close> with a string key: only a dictionary accepts it.\<close>

fun getitem_str :: "pyval \<Rightarrow> string \<Rightarrow> exn + pyval" where
  "getitem_str (PDict kvs) key = (case map_of kvs key of None \<Rightarrow> Inl KeyError | Some v \<Rightarrow> Inr v)"
| "getitem_str v key = Inl TypeError"

text \<open>
  \<^verbatim>\<open>v[i]\<close> with an integer: a list or a string is indexed (negative indices count from
  the end, out of range is \<^verbatim>\<open>IndexError\<close>); a JSON dictionary has string keys only, so
  an integer key is missing; every other value is not subscriptable.
\<close>

definition index_seq :: "'a list \<Rightarrow> int \<Rightarrow> exn + 'a" where
  "index_seq xs i =
     (if 0 \<le> i \<and> i < int (length xs) then Inr (xs ! nat i)
      else if i < 0 \<and> - int (length xs) \<le> i then Inr (xs ! nat (int (length xs) + i))
      else Inl IndexError)"

fun getitem_int :: "pyval \<Rightarrow> int \<Rightarrow> exn + pyval" where
  "getitem_int (PList xs) i = index_seq xs i"
| "getitem_int (PStr s) i = (case index_seq s i of Inl e \<Rightarrow> Inl e | Inr c \<Rightarrow> Inr (PStr [c]))"
| "getitem_int (PDict kvs) i = Inl KeyError"
| "getitem_int v i = Inl TypeError"

text \<open>Iterating (as \<^verbatim>\<open>zip\<close> does): a list yields its elements, a string its
  characters, a dictionary its keys; anything else is not iterable.\<close>

fun py_iter :: "pyval \<Rightarrow> exn + pyval list" where
  "py_iter (PList xs) = Inr xs"
| "py_iter (PStr s) = Inr (map (\<lambda>c. PStr [c]) s)"
| "py_iter (PDict kvs) = Inr (map (\<lambda>kv. PStr (fst kv)) kvs)"
| "py_iter v = Inl TypeError"

text \<open>\<^verbatim>\<open>str(i)\<close> of a natural number, as the f-string of the record identifier needs it.\<close>

definition digit_char :: "nat \<Rightarrow> char" where
  "digit_char d = ''0123456789'' ! (d mod 10)"

function str_nat :: "nat \<Rightarrow> string" where
  "str_nat n = (if n < 10 then [digit_char n] else str_nat (n div 10) @ [digit_char (n mod 10)])"
  by pat_completeness auto
termination
  by (relation "measure id") auto

section \<open>Batches, statuses and the worker's environment\<close>

text \<open>
  Modelled from the spec: the enumeration \<^verbatim>\<open>BatchStatus\<close> (\<^verbatim>\<open>src/api/batch_status.py\<close>
  is not among the sources). The spec's data model gives it the members
  \<^verbatim>\<open>NOT_STARTED, IN_PROGRESS, COMPLETED, FAILED\<close>.
\<close>

datatype batch_status = NOT_STARTED | IN_PROGRESS | COMPLETED | FAILED

text \<open>
  A batch as \<^verbatim>\<open>/dequeue\<close> delivers it: a dictionary with the keys the worker reads.
  The identifiers are kept as the text an f-string renders them to.
\<close>

record embeddings_md =
  embeddings_type :: string
  em_api_key :: string
  chunk_size :: int
  chunk_overlap :: int

record vector_db_md =
  vector_db_type :: string
  db_api_key :: string
  environment :: string
  index_name :: string

record batch =
  job_id :: string
  batch_id :: string
  source_data :: string
  embeddings_metadata :: embeddings_md
  vector_db_metadata :: vector_db_md

text \<open>An upsert record: \<^verbatim>\<open>{"id": ..., "values": ..., "metadata": {"source_text": ...}}\<close>.\<close>

record upsert_rec =
  rec_id :: string
  rec_values :: pyval
  rec_source_text :: string

text \<open>
  What the worker does to the outside world, in order: calls of
  \<^verbatim>\<open>openai.Embedding.create\<close>, \<^verbatim>\<open>time.sleep\<close>, \<^verbatim>\<open>pinecone.init\<close>, \<^verbatim>\<open>pinecone.Index\<close>,
  \<^verbatim>\<open>index.upsert\<close> and \<^verbatim>\<open>requests.put\<close> (the status report, with job id, batch status and
  batch id).
\<close>

datatype event =
    Embedding_create "string list"
  | Sleep nat
  | Pinecone_init string string
  | Pinecone_Index string
  | Index_upsert string "upsert_rec list"
  | Requests_put string batch_status string

type_synonym trace = "event list"

text \<open>
  The collaborators are opaque; the environment fixes how each of their calls ends.
  \<^item> \<open>openai_create i chunks\<close>: the call of loop iteration \<open>i\<close> raises or returns a response;
  \<^item> \<open>pinecone_init\<close>: raises or not;
  \<^item> \<open>pinecone_Index name\<close>: raises, or returns an index object of the given truthiness
    (the worker's test \<^verbatim>\<open>if not index\<close> is its only check that the index exists);
  \<^item> \<open>index_upsert name records\<close>: raises or returns an acknowledgement;
  \<^item> \<open>requests_put n\<close>: whether the \<open>n\<close>-th status report (counted from 0) raises;
  \<^item> \<open>BatchStatus_Failed\<close>: the value of the attribute \<^verbatim>\<open>BatchStatus.Failed\<close>, which the
    worker reads when the retries are exhausted; \<open>None\<close> when the enumeration has no such
    member (as in the spec's data model), so that reading it raises \<^verbatim>\<open>AttributeError\<close>.
\<close>

record world =
  openai_create :: "nat \<Rightarrow> string list \<Rightarrow> exn + pyval"
  pinecone_init :: "string \<Rightarrow> string \<Rightarrow> exn option"
  pinecone_Index :: "string \<Rightarrow> exn + bool"
  index_upsert :: "string \<Rightarrow> upsert_rec list \<Rightarrow> exn + pyval"
  requests_put :: "nat \<Rightarrow> exn option"
  BatchStatus_Failed :: "batch_status option"

primrec reports :: "trace \<Rightarrow> (string \<times> batch_status \<times> string) list" where
  "reports [] = []"
| "reports (e # t) =
     (case e of Requests_put j st b \<Rightarrow> (j, st, b) # reports t | _ \<Rightarrow> reports t)"

primrec upserts :: "trace \<Rightarrow> (string \<times> upsert_rec list) list" where
  "upserts [] = []"
| "upserts (e # t) =
     (case e of Index_upsert name recs \<Rightarrow> (name, recs) # upserts t | _ \<Rightarrow> upserts t)"

primrec embed_calls :: "trace \<Rightarrow> string list list" where
  "embed_calls [] = []"
| "embed_calls (e # t) =
     (case e of Embedding_create chunks \<Rightarrow> chunks # embed_calls t | _ \<Rightarrow> embed_calls t)"

primrec sleeps :: "trace \<Rightarrow> nat list" where
  "sleeps [] = []"
| "sleeps (e # t) = (case e of Sleep d \<Rightarrow> d # sleeps t | _ \<Rightarrow> sleeps t)"

section \<open>The worker\<close>

text \<open>
  \<^verbatim>\<open>
  def update_job_status(job_id, batch_status, batch_id):
      ...
      response = requests.put(f'{base_request_url}/jobs/{job_id}', headers=headers, data=data)
  \<close>
  The request is issued; it may raise.
\<close>

definition update_job_status ::
    "world \<Rightarrow> string \<Rightarrow> batch_status \<Rightarrow> string \<Rightarrow> trace \<Rightarrow> (exn + unit) \<times> trace" where
  "update_job_status w jid st bid t =
     (case requests_put w (length (reports t)) of
        Some e \<Rightarrow> (Inl e, t @ [Requests_put jid st bid])
      | None \<Rightarrow> (Inr (), t @ [Requests_put jid st bid]))"

text \<open>
  \<^verbatim>\<open>
  def create_source_chunk_dict(chunked_data, embeddings, batch_id, job_id):
      embedding_source_pair = zip(embeddings, chunked_data)
      upsert_list = []
      for i, (embedding, source_text) in enumerate(embedding_source_pair):
          upsert_list.append(
              {"id":f"{job_id}_{batch_id}_{i}",
              "values": embedding,
              "metadata": {"source_text": source_text}})
      return upsert_list
  \<close>
\<close>

definition create_source_chunk_dict ::
    "string list \<Rightarrow> pyval \<Rightarrow> string \<Rightarrow> string \<Rightarrow> exn + upsert_rec list" where
  "create_source_chunk_dict chunked_data embeddings bid jid =
     (case py_iter embeddings of
        Inl e \<Rightarrow> Inl e
      | Inr es \<Rightarrow>
          Inr (map (\<lambda>(i, embedding, source_text).
                      \<lparr>rec_id = jid @ ''_'' @ bid @ ''_'' @ str_nat i,
                       rec_values = embedding,
                       rec_source_text = source_text\<rparr>)
                   (enumerate 0 (zip es chunked_data))))"

text \<open>
  \<^verbatim>\<open>
  def write_embeddings_to_pinecone(upsert_list, vector_db_metadata):
      pinecone.init(api_key=vector_db_metadata['api_key'], environment=vector_db_metadata['environment'])
      index = pinecone.Index(vector_db_metadata['index_name'])
      if not index:
          print(...)
          return None
      return index.upsert(vectors=upsert_list)
  \<close>
\<close>

definition write_embeddings_to_pinecone ::
    "world \<Rightarrow> upsert_rec list \<Rightarrow> vector_db_md \<Rightarrow> trace \<Rightarrow> (exn + pyval) \<times> trace" where
  "write_embeddings_to_pinecone w upsert_list vdb t =
     (let t1 = t @ [Pinecone_init (db_api_key vdb) (environment vdb)] in
      case pinecone_init w (db_api_key vdb) (environment vdb) of
        Some e \<Rightarrow> (Inl e, t1)
      | None \<Rightarrow>
          (let t2 = t1 @ [Pinecone_Index (index_name vdb)] in
           case pinecone_Index w (index_name vdb) of
             Inl e \<Rightarrow> (Inl e, t2)
           | Inr index \<Rightarrow>
               if \<not> index then (Inr PNone, t2)
               else
                 (let t3 = t2 @ [Index_upsert (index_name vdb) upsert_list] in
                  case index_upsert w (index_name vdb) upsert_list of
                    Inl e \<Rightarrow> (Inl e, t3)
                  | Inr ack \<Rightarrow> (Inr ack, t3))))"

text \<open>
  \<^verbatim>\<open>
  def write_embeddings_to_vector_db(embeddings, chunked_data, vector_db_metadata, batch_id, job_id):
      if vector_db_metadata['vector_db_type'] == 'PINECONE':
          upsert_list = create_source_chunk_dict(chunked_data, embeddings, batch_id, job_id)
          return write_embeddings_to_pinecone(upsert_list, vector_db_metadata)
      else:
          print('Unsupported vector DB type:', vector_db_metadata['vector_db_type'])
  \<close>
  The \<^verbatim>\<open>else\<close> branch falls off the end of the function and so returns \<^verbatim>\<open>None\<close>.
\<close>

definition write_embeddings_to_vector_db ::
    "world \<Rightarrow> pyval \<Rightarrow> string list \<Rightarrow> vector_db_md \<Rightarrow> string \<Rightarrow> string \<Rightarrow> trace
      \<Rightarrow> (exn + pyval) \<times> trace" where
  "write_embeddings_to_vector_db w embeddings chunked_data vdb bid jid t =
     (if vector_db_type vdb = ''PINECONE'' then
        (case create_source_chunk_dict chunked_data embeddings bid jid of
           Inl e \<Rightarrow> (Inl e, t)
         | Inr upsert_list \<Rightarrow> write_embeddings_to_pinecone w upsert_list vdb t)
      else (Inr PNone, t))"

text \<open>\<^verbatim>\<open>response["data"][0]["embedding"]\<close>, with the exceptions of each subscript.\<close>

definition response_embedding :: "pyval \<Rightarrow> exn + pyval" where
  "response_embedding response =
     (case getitem_str response ''data'' of
        Inl e \<Rightarrow> Inl e
      | Inr d \<Rightarrow>
          (case getitem_int d 0 of
             Inl e \<Rightarrow> Inl e
           | Inr first \<Rightarrow> getitem_str first ''embedding''))"

text \<open>
  How a block of statements ends: an exception propagates, the function returns a
  value, or control reaches the statement after the loop (with the local variable
  \<^verbatim>\<open>response\<close>, unbound when no call has returned yet).
\<close>

datatype flow = Raises exn | Returns pyval | Falls_through "pyval option"

text \<open>
  The two places where the worker gives up after the fifth attempt:
  \<^verbatim>\<open>
  update_job_status(batch['job_id'], BatchStatus.Failed, batch['batch_id'])
  return
  \<close>
  The arguments are evaluated first, so a missing attribute \<^verbatim>\<open>BatchStatus.Failed\<close>
  raises before any report is sent. Neither place is inside the \<^verbatim>\<open>try\<close> block (one is in
  its handler, the other after it), so an exception leaves \<^verbatim>\<open>embed_openai_batch\<close>.
\<close>

definition give_up :: "world \<Rightarrow> batch \<Rightarrow> trace \<Rightarrow> flow \<times> trace" where
  "give_up w b t =
     (case BatchStatus_Failed w of
        None \<Rightarrow> (Raises AttributeError, t)
      | Some st \<Rightarrow>
          (case update_job_status w (job_id b) st (batch_id b) t of
             (Inl e, t') \<Rightarrow> (Raises e, t')
           | (Inr u, t') \<Rightarrow> (Returns PNone, t')))"

text \<open>
  \<^verbatim>\<open>
  for i in range(5):
      try:
          response = openai.Embedding.create(model= "text-embedding-ada-002", input=chunked_data)
          if response["data"][0]["embedding"]:
              break
      except Exception as e:
          print('Open AI Embedding API call failed:', e)
          time.sleep(2**i)  # Exponential backoff: 1, 2, 4, 8, 16 seconds.
          if i == 4:
              ...give up...
      if i == 4:
              ...give up...
  \<close>
  The loop runs over the remaining indices; \<open>response\<close> is the local variable.
  An exception of the call leaves the variable as it was; an exception of the
  subscripts comes after the assignment.
\<close>

fun attempts ::
    "world \<Rightarrow> batch \<Rightarrow> string list \<Rightarrow> nat list \<Rightarrow> pyval option \<Rightarrow> trace \<Rightarrow> flow \<times> trace" where
  "attempts w b chunked_data [] response t = (Falls_through response, t)"
| "attempts w b chunked_data (i # rest) response t =
     (let t1 = t @ [Embedding_create chunked_data] in
      case openai_create w i chunked_data of
        Inl e \<Rightarrow>
          (let t2 = t1 @ [Sleep (2 ^ i)] in
           if i = 4 then give_up w b t2
           else attempts w b chunked_data rest response t2)
      | Inr r \<Rightarrow>
          (case response_embedding r of
             Inl e \<Rightarrow>
               (let t2 = t1 @ [Sleep (2 ^ i)] in
                if i = 4 then give_up w b t2
                else attempts w b chunked_data rest (Some r) t2)
           | Inr embedding \<Rightarrow>
               if truthy embedding then (Falls_through (Some r), t1)
               else if i = 4 then give_up w b t1
               else attempts w b chunked_data rest (Some r) t1))"

text \<open>
  \<^verbatim>\<open>
  def embed_openai_batch(batch):
      openai.api_key = batch['embeddings_metadata']['api_key']
      chunked_data = chunk_data(batch['source_data'], batch['embeddings_metadata']['chunk_size'],
                                batch['embeddings_metadata']['chunk_overlap'])
      for i in range(5):
          ...
      embeddings = response["data"][0]["embedding"]
      return write_embeddings_to_vector_db(embeddings, chunked_data, batch['vector_db_metadata'],
                                           batch['batch_id'], batch['job_id'])
  \<close>
\<close>

definition embed_openai_batch :: "world \<Rightarrow> batch \<Rightarrow> trace \<Rightarrow> (exn + pyval) \<times> trace" where
  "embed_openai_batch w b t =
     (case chunk_data (source_data b) (chunk_size (embeddings_metadata b))
             (chunk_overlap (embeddings_metadata b)) of
        Inl e \<Rightarrow> (Inl e, t)
      | Inr chunked_data \<Rightarrow>
          (case attempts w b chunked_data [0, 1, 2, 3, 4] None t of
             (Raises e, t1) \<Rightarrow> (Inl e, t1)
           | (Returns v, t1) \<Rightarrow> (Inr v, t1)
           | (Falls_through None, t1) \<Rightarrow> (Inl UnboundLocalError, t1)
           | (Falls_through (Some response), t1) \<Rightarrow>
               (case response_embedding response of
                  Inl e \<Rightarrow> (Inl e, t1)
                | Inr embeddings \<Rightarrow>
                    write_embeddings_to_vector_db w embeddings chunked_data
                      (vector_db_metadata b) (batch_id b) (job_id b) t1)))"

text \<open>
  \<^verbatim>\<open>
  def process_batch(batch):
      embeddings_type = batch['embeddings_metadata']['embeddings_type']
      if embeddings_type == 'OPEN_AI':
          try:
              vectors_uploaded = embed_openai_batch(batch)
              update_job_status(batch['job_id'], BatchStatus.COMPLETED, batch['batch_id']) \
                  if vectors_uploaded else \
                  update_job_status(batch['job_id'], BatchStatus.FAILED, batch['batch_id'])
          except Exception as e:
              print('Error embedding batch:', e)
              update_job_status(batch['job_id'], BatchStatus.FAILED, batch['batch_id'])
      else:
          print('Unsupported embeddings type:', embeddings_type)
          update_job_status(batch['job_id'], BatchStatus.FAILED, batch['batch_id'])
  \<close>
  \<open>try_block\<close> is the body of the \<^verbatim>\<open>try\<close>; the handler catches what it raises, the
  report inside it included.
\<close>

definition try_block :: "world \<Rightarrow> batch \<Rightarrow> trace \<Rightarrow> (exn + unit) \<times> trace" where
  "try_block w b t =
     (case embed_openai_batch w b t of
        (Inl e, t1) \<Rightarrow> (Inl e, t1)
      | (Inr vectors_uploaded, t1) \<Rightarrow>
          if truthy vectors_uploaded
          then update_job_status w (job_id b) COMPLETED (batch_id b) t1
          else update_job_status w (job_id b) FAILED (batch_id b) t1)"

definition process_batch :: "world \<Rightarrow> batch \<Rightarrow> trace \<Rightarrow> (exn + unit) \<times> trace" where
  "process_batch w b t =
     (if embeddings_type (embeddings_metadata b) = ''OPEN_AI'' then
        (case try_block w b t of
           (Inl e, t1) \<Rightarrow> update_job_status w (job_id b) FAILED (batch_id b) t1
         | (Inr u, t1) \<Rightarrow> (Inr (), t1))
      else update_job_status w (job_id b) FAILED (batch_id b) t)"

section \<open>The status aggregator\<close>

text \<open>
  Modelled from the spec: the job record, the job status and the status-update operation
  of the orchestrator (\<^verbatim>\<open>src/api\<close> is not among the sources; the worker only calls its
  endpoint). The definitions follow the transition rule of the spec's section 4.3 step
  by step, in the order given there:
  \<^enum> a batch whose status is already \<open>COMPLETED\<close> or \<open>FAILED\<close> rejects the update
    (\<open>StaleUpdateError\<close>);
  \<^enum> the batch takes the new status;
  \<^enum> \<open>batches_processed\<close> is incremented;
  \<^enum> \<open>batches_succeeded\<close> is incremented when the new status is \<open>COMPLETED\<close>;
  \<^enum> a \<open>FAILED\<close> report sets the job status to \<open>FAILED\<close>, which is terminal and sticky
    ("job failed");
  \<^enum> otherwise, with \<open>batches_processed < total_batches\<close>, the job is \<open>IN_PROGRESS\<close>;
  \<^enum> otherwise the job is \<open>COMPLETED\<close> when every batch succeeded, else
    \<open>PARTIALLY_COMPLETE\<close>.

  The data model (section 3) and the error handling design (section 7) make \<open>FAILED\<close>
  terminal: it "must never be overwritten by a later update for the same entity", and
  the rule is "authoritative". So steps 6 and 7 assign a status only to a job that is
  not \<open>FAILED\<close>; on a \<open>FAILED\<close> job an applied update still counts the batch (steps 2 to
  4), leaves the status, and its outcome names the job's resulting state, "job failed".
  An unknown job or batch is "not found" (section 6).
\<close>

datatype job_status =
  JOB_NOT_STARTED | JOB_IN_PROGRESS | JOB_PARTIALLY_COMPLETE | JOB_COMPLETED | JOB_FAILED

record job =
  webhook_url :: string
  total_batches :: int
  batches_processed :: int
  batches_succeeded :: int
  status :: job_status

datatype outcome = Job_failed | More_work_remains | Fully_complete | Partially_complete

datatype update_error = StaleUpdateError | NotFoundError

definition aggregate ::
    "job \<Rightarrow> batch_status \<Rightarrow> batch_status \<Rightarrow> update_error + job \<times> batch_status \<times> outcome" where
  "aggregate j current new_batch_status =
     (if current = COMPLETED \<or> current = FAILED then Inl StaleUpdateError
      else
        (let j1 = j\<lparr>batches_processed := batches_processed j + 1\<rparr>;
             j2 = (if new_batch_status = COMPLETED
                   then j1\<lparr>batches_succeeded := batches_succeeded j1 + 1\<rparr> else j1)
         in if new_batch_status = FAILED
            then Inr (j2\<lparr>status := JOB_FAILED\<rparr>, new_batch_status, Job_failed)
            else if status j = JOB_FAILED
            then Inr (j2, new_batch_status, Job_failed)
            else if batches_processed j2 < total_batches j2
            then Inr (j2\<lparr>status := JOB_IN_PROGRESS\<rparr>, new_batch_status, More_work_remains)
            else if batches_succeeded j2 = total_batches j2
            then Inr (j2\<lparr>status := JOB_COMPLETED\<rparr>, new_batch_status, Fully_complete)
            else Inr (j2\<lparr>status := JOB_PARTIALLY_COMPLETE\<rparr>, new_batch_status, Partially_complete)))"

text \<open>
  Modelled from the spec: the job table and the batch table of the queue store, and the
  orchestrator's operation \<^verbatim>\<open>update_status(job_id, batch_id, batch_status)\<close> on them
  (sections 4.2 and 6), which looks both records up and applies the transition rule.
\<close>

record store =
  jobs :: "string \<rightharpoonup> job"
  batches :: "string \<rightharpoonup> batch_status"

definition update_status ::
    "store \<Rightarrow> string \<Rightarrow> string \<Rightarrow> batch_status \<Rightarrow> update_error + store \<times> outcome" where
  "update_status s jid bid new_batch_status =
     (case jobs s jid of
        None \<Rightarrow> Inl NotFoundError
      | Some j \<Rightarrow>
          (case batches s bid of
             None \<Rightarrow> Inl NotFoundError
           | Some current \<Rightarrow>
               (case aggregate j current new_batch_status of
                  Inl e \<Rightarrow> Inl e
                | Inr (j', st, oc) \<Rightarrow>
                    Inr (s\<lparr>jobs := (jobs s)(jid \<mapsto> j'), batches := (batches s)(bid \<mapsto> st)\<rparr>, oc))))"

text \<open>
  A sequence of status updates for one job, each naming a batch and its reported status,
  applied with \<open>update_status\<close> one after the other; a rejected update changes nothing.
  \<open>job_status_of\<close> reads the status of a job in the store.
\<close>

fun apply_updates :: "store \<Rightarrow> string \<Rightarrow> (string \<times> batch_status) list \<Rightarrow> store" where
  "apply_updates s jid [] = s"
| "apply_updates s jid ((bid, st) # us) =
     (case update_status s jid bid st of
        Inl e \<Rightarrow> apply_updates s jid us
      | Inr (s', oc) \<Rightarrow> apply_updates s' jid us)"

definition job_status_of :: "store \<Rightarrow> string \<Rightarrow> job_status option" where
  "job_status_of s jid = map_option status (jobs s jid)"

text \<open>A job of three batches, none reported yet.\<close>

definition demo_store :: store where
  "demo_store =
     \<lparr>jobs = [''j'' \<mapsto> \<lparr>webhook_url = ''hook'', total_batches = 3, batches_processed = 0,
                         batches_succeeded = 0, status = JOB_NOT_STARTED\<rparr>],
      batches = [''j-0'' \<mapsto> NOT_STARTED, ''j-1'' \<mapsto> NOT_STARTED, ''j-2'' \<mapsto> NOT_STARTED]\<rparr>"

section \<open>Notions used to state the properties\<close>

text \<open>The windows of the chunker in closed form: window \<open>k\<close> starts at \<open>k * step\<close>.\<close>

definition windows :: "'a list \<Rightarrow> nat \<Rightarrow> nat \<Rightarrow> 'a list list" where
  "windows data sz step = map (\<lambda>k. take sz (drop (k * step) data)) [0..<(length data + step - 1) div step]"

text \<open>
  An attempt of the retry loop fails when the call raises, when a subscript of
  \<^verbatim>\<open>response["data"][0]["embedding"]\<close> raises, or when the embedding is falsy; the first
  two are the failures that reach the \<^verbatim>\<open>except\<close> handler.
\<close>

definition attempt_raises :: "world \<Rightarrow> nat \<Rightarrow> string list \<Rightarrow> bool" where
  "attempt_raises w i chunks =
     (case openai_create w i chunks of Inl e \<Rightarrow> True | Inr r \<Rightarrow> isl (response_embedding r))"

definition attempt_fails :: "world \<Rightarrow> nat \<Rightarrow> string list \<Rightarrow> bool" where
  "attempt_fails w i chunks =
     (case openai_create w i chunks of
        Inl e \<Rightarrow> True
      | Inr r \<Rightarrow> (case response_embedding r of Inl e \<Rightarrow> True | Inr embedding \<Rightarrow> \<not> truthy embedding))"

text \<open>The calls made to the vector store.\<close>

primrec store_calls :: "trace \<Rightarrow> event list" where
  "store_calls [] = []"
| "store_calls (e # t) =
     (case e of
        Pinecone_init k env \<Rightarrow> e # store_calls t
      | Pinecone_Index name \<Rightarrow> e # store_calls t
      | Index_upsert name recs \<Rightarrow> e # store_calls t
      | _ \<Rightarrow> store_calls t)"

text \<open>
  What a failed attempt \<open>i\<close> does: the call, and the sleep of the \<^verbatim>\<open>except\<close> handler when
  the attempt raised; and what five failed attempts do.
\<close>

definition attempt_events :: "world \<Rightarrow> string list \<Rightarrow> nat \<Rightarrow> event list" where
  "attempt_events w cs i = Embedding_create cs # (if attempt_raises w i cs then [Sleep (2 ^ i)] else [])"

definition failed_attempts :: "world \<Rightarrow> string list \<Rightarrow> event list" where
  "failed_attempts w cs = attempt_events w cs 0 @ attempt_events w cs 1 @ attempt_events w cs 2
                    @ attempt_events w cs 3 @ attempt_events w cs 4"

text \<open>
  The report sent where the loop gives up (none when \<^verbatim>\<open>BatchStatus.Failed\<close> does not
  exist), and whether some upsert of a trace returned a truthy acknowledgement.
\<close>

definition give_up_reports :: "world \<Rightarrow> batch \<Rightarrow> (string \<times> batch_status \<times> string) list" where
  "give_up_reports w b =
     (case BatchStatus_Failed w of None \<Rightarrow> [] | Some st \<Rightarrow> [(job_id b, st, batch_id b)])"

definition acked :: "world \<Rightarrow> trace \<Rightarrow> bool" where
  "acked w t =
     list_ex (\<lambda>(name, recs). case index_upsert w name recs of Inl e \<Rightarrow> False | Inr ack \<Rightarrow> truthy ack)
       (upserts t)"

text \<open>A batch and stubbed collaborators, for concrete runs.\<close>

definition demo_batch :: batch where
  "demo_batch =
     \<lparr>job_id = ''7'', batch_id = ''7-0'', source_data = ''abcdefg'',
      embeddings_metadata =
        \<lparr>embeddings_type = ''OPEN_AI'', em_api_key = ''sk'', chunk_size = 5, chunk_overlap = 3\<rparr>,
      vector_db_metadata =
        \<lparr>vector_db_type = ''PINECONE'', db_api_key = ''pk'', environment = ''env'',
         index_name = ''idx''\<rparr>\<rparr>"

definition response_of :: "pyval \<Rightarrow> pyval" where
  "response_of embedding = PDict [(''data'', PList [PDict [(''embedding'', embedding)]])]"

definition stub_world :: "(nat \<Rightarrow> exn + pyval) \<Rightarrow> world" where
  "stub_world answers =
     \<lparr>openai_create = (\<lambda>i chunks. answers i),
      pinecone_init = (\<lambda>k e. None),
      pinecone_Index = (\<lambda>name. Inr True),
      index_upsert = (\<lambda>name recs. Inr (PDict [(''upserted_count'', PNum (of_nat (length recs)))])),
      requests_put = (\<lambda>n. None),
      BatchStatus_Failed = None\<rparr>"

text \<open>A provider that always answers with four values, and one whose first answer carries
  an empty embedding.\<close>

definition four_values :: "nat \<Rightarrow> exn + pyval" where
  "four_values i = Inr (response_of (PList [PNum 1, PNum 2, PNum 3, PNum 4]))"

definition empty_then_ok :: "nat \<Rightarrow> exn + pyval" where
  "empty_then_ok i =
     (if i = 0 then Inr (response_of (PList [])) else four_values i)"

text \<open>
  A provider that answers four chunks as the embedding API does: one data item per input,
  in order, each with its embedding vector and its index.
\<close>

definition data_item :: "nat \<Rightarrow> pyval list \<Rightarrow> pyval" where
  "data_item k vector =
     PDict [(''object'', PStr ''embedding''), (''index'', PNum (of_nat k)), (''embedding'', PList vector)]"

definition one_vector_per_chunk :: "nat \<Rightarrow> exn + pyval" where
  "one_vector_per_chunk i =
     Inr (PDict
       [(''object'', PStr ''list''),
        (''data'',
         PList [data_item 0 [PNum 1, PNum 2, PNum 3, PNum 4, PNum 5],
                data_item 1 [PNum 11, PNum 12, PNum 13, PNum 14, PNum 15],
                data_item 2 [PNum 21, PNum 22, PNum 23, PNum 24, PNum 25],
                data_item 3 [PNum 31, PNum 32, PNum 33, PNum 34, PNum 35]])])"

section \<open>Properties of the chunker\<close>

declare range_up.simps [simp del]
declare range_down.simps [simp del]

lemma range_up_eq:
  "0 < step \<Longrightarrow> range_up i stop step = map (\<lambda>k. i + int k * step) [0..<nat ((stop - i + step - 1) div step)]"
proof (induction i stop step rule: range_up.induct)
  case (1 i stop step)
  show ?case
  proof (cases "i < stop")
    case False
    with 1(2) have "(stop - i + step - 1) div step \<le> 0"
      using pos_imp_zdiv_pos_iff [of step "stop - i + step - 1"] by simp
    then show ?thesis using False by (simp add: range_up.simps)
  next
    case True
    define m where "m = nat ((stop - (i + step) + step - 1) div step)"
    have eq: "(stop - i + step - 1) div step = (stop - (i + step) + step - 1) div step + 1"
    proof -
      have "stop - i + step - 1 = (stop - (i + step) + step - 1) + step" by simp
      moreover have "((stop - (i + step) + step - 1) + step) div step = (stop - (i + step) + step - 1) div step + 1"
        using 1(2) by (intro div_add_self2) simp
      ultimately show ?thesis by (simp only:)
    qed
    have nn: "0 \<le> (stop - (i + step) + step - 1) div step"
      using True 1(2) by (simp add: pos_imp_zdiv_nonneg_iff)
    have n: "nat ((stop - i + step - 1) div step) = Suc m"
      using eq nn by (simp add: m_def)
    have "range_up i stop step = i # range_up (i + step) stop step"
      using True 1(2) by (subst range_up.simps) simp
    also have "\<dots> = i # map (\<lambda>k. i + step + int k * step) [0..<m]"
      using 1(1) True 1(2) by (simp add: m_def)
    also have "\<dots> = map (\<lambda>k. i + int k * step) [0..<Suc m]"
      by (simp add: map_upt_Suc algebra_simps del: upt_Suc)
    finally show ?thesis by (simp only: n)
  qed
qed

lemma range_up_zero:
  assumes "0 < step"
  shows "range_up 0 (int L) (int step) = map (\<lambda>k. int (k * step)) [0..<(L + step - 1) div step]"
proof -
  have "int L - 0 + int step - 1 = int (L + step - 1)"
    using assms by (simp add: of_nat_diff)
  then have "nat ((int L - 0 + int step - 1) div int step) = (L + step - 1) div step"
    by (simp only: zdiv_int [symmetric] nat_int)
  then show ?thesis using assms by (simp add: range_up_eq)
qed

lemma count_char:
  assumes "0 < step"
  shows "k < (L + step - 1) div step \<longleftrightarrow> k * step < (L::nat)"
proof -
  have "k < (L + step - 1) div step \<longleftrightarrow> Suc k \<le> (L + step - 1) div step" by auto
  also have "\<dots> \<longleftrightarrow> Suc k * step \<le> L + step - 1"
    using assms by (simp only: less_eq_div_iff_mult_less_eq)
  also have "\<dots> \<longleftrightarrow> k * step + step \<le> L + step - 1" by (simp only: mult_Suc add.commute)
  also have "\<dots> \<longleftrightarrow> k * step < L" using assms by linarith
  finally show ?thesis .
qed

lemma py_slice_nonneg:
  assumes "0 \<le> a" "0 \<le> b"
  shows "py_slice xs a b = take (nat b - nat a) (drop (nat a) xs)"
proof (cases "nat a < length xs")
  case True
  then show ?thesis using assms
    by (cases "nat b \<le> length xs") (simp_all add: py_slice_def slice_index_def min_def Let_def)
next
  case False
  then show ?thesis using assms by (simp add: py_slice_def slice_index_def Let_def)
qed

lemma chunk_data_windows:
  assumes "0 \<le> ov" "ov < sz"
  shows "chunk_data data sz ov = Inr (windows data (nat sz) (nat (sz - ov)))"
proof -
  define step where "step = nat (sz - ov)"
  have step: "0 < step" "sz - ov = int step" using assms by (simp_all add: step_def)
  have sl: "py_slice data (int (k * step)) (int (k * step) + sz) = take (nat sz) (drop (k * step) data)" for k
  proof -
    have "nat (int (k * step)) = k * step" by (rule nat_int)
    moreover have "nat (int (k * step) + sz) - k * step = nat sz"
    proof -
      have "int (k * step) + sz = int (k * step + nat sz)" using assms by simp
      then have "nat (int (k * step) + sz) = k * step + nat sz" by (simp only: nat_int)
      then show ?thesis by simp
    qed
    ultimately show ?thesis using assms by (simp only: py_slice_nonneg of_nat_0_le_iff add_nonneg_nonneg order_less_imp_le [OF order_le_less_trans [OF assms]])
  qed
  have sl': "py_slice data (int k * int step) (int k * int step + sz) = take (nat sz) (drop (k * step) data)" for k
    using sl [of k] by (simp only: of_nat_mult)
  show ?thesis
    using step(1) unfolding step_def [symmetric]
    by (simp add: chunk_data_def py_range_def step(2) range_up_zero windows_def sl' o_def)
qed

lemma length_windows: "length (windows data sz step) = (length data + step - 1) div step"
  by (simp add: windows_def)

lemma nth_windows:
  "k < length (windows data sz step) \<Longrightarrow> windows data sz step ! k = take sz (drop (k * step) data)"
  by (simp add: windows_def)

lemma windows_cover_aux:
  "concat (map (\<lambda>k. take step (drop (k * step) xs)) [0..<n]) = take (n * step) xs"
proof (induction n)
  case 0
  show ?case by simp
next
  case (Suc n)
  have "Suc n * step = n * step + step" by simp
  then have "take (Suc n * step) xs = take (n * step) xs @ take step (drop (n * step) xs)"
    by (simp only: take_add)
  with Suc show ?case by simp
qed

lemma windows_cover:
  assumes "0 < step" "step \<le> sz"
  shows "concat (map (take step) (windows data sz step)) = data"
proof -
  have "length data \<le> ((length data + step - 1) div step) * step"
    using assms(1) count_char [of step "(length data + step - 1) div step" "length data"] by simp
  then show ?thesis
    using assms(2) by (simp add: windows_def o_def min_absorb1 windows_cover_aux)
qed

lemma windows_shared:
  assumes "Suc k < length (windows data sz step)"
  shows "drop step (windows data sz step ! k)
        = take (length (windows data sz step ! k) - step) (windows data sz step ! Suc k)"
proof -
  have k: "k < length (windows data sz step)" using assms by simp
  show ?thesis
    by (simp add: nth_windows [OF k] nth_windows [OF assms] drop_take add.commute min_def)
qed

lemma py_slice_window:
  assumes "0 \<le> sz"
  shows "py_slice data (int (k * step)) (int (k * step) + sz) = take (nat sz) (drop (k * step) data)"
proof -
  have "int (k * step) + sz = int (k * step + nat sz)" using assms by simp
  then have "nat (int (k * step) + sz) = k * step + nat sz" by (simp only: nat_int)
  then have "nat (int (k * step) + sz) - k * step = nat sz" by simp
  moreover have "nat (int (k * step)) = k * step" by (rule nat_int)
  moreover have "0 \<le> int (k * step) + sz" using assms by simp
  ultimately show ?thesis by (simp only: py_slice_nonneg [OF of_nat_0_le_iff])
qed

lemma length_nth_windows:
  assumes "k < length (windows data sz step)"
  shows "length (windows data sz step ! k) = min sz (length data - k * step)"
  by (simp add: nth_windows [OF assms] min.commute)

lemma windows_index:
  assumes "0 < step"
  shows "k < length (windows data sz step) \<longleftrightarrow> k * step < length data"
  using count_char [OF assms] by (simp add: length_windows)

lemma range_down_empty: "stop \<ge> i \<Longrightarrow> range_down i stop step = []"
  by (simp add: range_down.simps)

section \<open>Properties of the worker's building blocks\<close>

lemma reports_append [simp]: "reports (s @ t) = reports s @ reports t"
  by (induction s) (simp_all split: event.split)

lemma upserts_append [simp]: "upserts (s @ t) = upserts s @ upserts t"
  by (induction s) (simp_all split: event.split)

lemma embed_calls_append [simp]: "embed_calls (s @ t) = embed_calls s @ embed_calls t"
  by (induction s) (simp_all split: event.split)

lemma sleeps_append [simp]: "sleeps (s @ t) = sleeps s @ sleeps t"
  by (induction s) (simp_all split: event.split)

lemma store_calls_append [simp]: "store_calls (s @ t) = store_calls s @ store_calls t"
  by (induction s) (simp_all split: event.split)

lemma update_job_status_trace [simp]:
  "snd (update_job_status w j st b t) = t @ [Requests_put j st b]"
  by (simp add: update_job_status_def split: option.split)

lemma give_up_trace:
  "snd (give_up w b t) =
     t @ (case BatchStatus_Failed w of None \<Rightarrow> [] | Some st \<Rightarrow> [Requests_put (job_id b) st (batch_id b)])"
  by (simp add: give_up_def update_job_status_def split: option.split)

lemma give_up_flow: "fst (give_up w b t) \<noteq> Falls_through r"
  by (simp add: give_up_def update_job_status_def split: option.split)

lemma give_up_flow_cases:
  "fst (give_up w b t) = Returns v \<Longrightarrow> v = PNone"
  by (simp add: give_up_def update_job_status_def split: option.splits)

text \<open>One failed attempt, and one successful attempt.\<close>

lemma attempts_fail_step:
  assumes "attempt_fails w i cs"
  shows "attempts w b cs (i # rest) r t =
     (let t' = t @ Embedding_create cs # (if attempt_raises w i cs then [Sleep (2 ^ i)] else []);
          r' = (case openai_create w i cs of Inl e \<Rightarrow> r | Inr x \<Rightarrow> Some x)
      in if i = 4 then give_up w b t' else attempts w b cs rest r' t')"
proof (cases "openai_create w i cs")
  case (Inl e)
  then show ?thesis by (simp add: attempt_raises_def Let_def)
next
  case (Inr x)
  show ?thesis
  proof (cases "response_embedding x")
    case (Inl e)
    with Inr show ?thesis by (simp add: attempt_raises_def Let_def)
  next
    case (Inr embedding)
    with \<open>openai_create w i cs = Inr x\<close> assms show ?thesis
      by (simp add: attempt_raises_def attempt_fails_def Let_def)
  qed
qed

lemma attempts_success_step:
  assumes "\<not> attempt_fails w i cs"
  shows "\<exists>x. openai_create w i cs = Inr x \<and>
     attempts w b cs (i # rest) r t = (Falls_through (Some x), t @ [Embedding_create cs])"
proof (cases "openai_create w i cs")
  case (Inl e)
  with assms show ?thesis by (simp add: attempt_fails_def)
next
  case (Inr x)
  with assms show ?thesis
    by (cases "response_embedding x") (simp_all add: attempt_fails_def)
qed

text \<open>The loop never touches the vector store, and reports only when it gives up.\<close>

lemma attempts_store_calls:
  "store_calls (snd (attempts w b cs is r t)) = store_calls t"
  by (induction "is" arbitrary: r t)
     (simp_all add: Let_def give_up_trace split: sum.split option.split)

lemma attempts_upserts:
  "upserts (snd (attempts w b cs is r t)) = upserts t"
  by (induction "is" arbitrary: r t)
     (simp_all add: Let_def give_up_trace split: sum.split option.split)

lemma reports_give_up: "reports (snd (give_up w b t)) = reports t @ give_up_reports w b"
  by (simp add: give_up_trace give_up_reports_def split: option.split)

lemma attempts_reports:
  "reports (snd (attempts w b cs is r t)) = reports t
   \<or> (reports (snd (attempts w b cs is r t)) = reports t @ give_up_reports w b
      \<and> (\<forall>x. fst (attempts w b cs is r t) \<noteq> Falls_through x))"
proof (induction "is" arbitrary: r t)
  case Nil
  show ?case by simp
next
  case (Cons i rest)
  show ?case
  proof (cases "attempt_fails w i cs")
    case True
    define t' where "t' = t @ Embedding_create cs # (if attempt_raises w i cs then [Sleep (2 ^ i)] else [])"
    define r' where "r' = (case openai_create w i cs of Inl e \<Rightarrow> r | Inr x \<Rightarrow> Some x)"
    have st: "attempts w b cs (i # rest) r t =
        (if i = 4 then give_up w b t' else attempts w b cs rest r' t')"
      using attempts_fail_step [OF True, of b rest r t] by (simp add: Let_def t'_def r'_def)
    have rt: "reports t' = reports t" by (simp add: t'_def)
    show ?thesis
    proof (cases "i = 4")
      case True
      then show ?thesis unfolding st by (simp add: reports_give_up give_up_flow rt)
    next
      case False
      then show ?thesis unfolding st using Cons.IH [of r' t'] by (simp add: rt)
    qed
  next
    case False
    then obtain x where "attempts w b cs (i # rest) r t = (Falls_through (Some x), t @ [Embedding_create cs])"
      using attempts_success_step [of w i cs b rest r t] by blast
    then show ?thesis by simp
  qed
qed

lemma attempts_returns: "fst (attempts w b cs is r t) = Returns v \<Longrightarrow> v = PNone"
  by (induction "is" arbitrary: r t)
     (auto simp add: Let_def dest: give_up_flow_cases split: sum.splits if_splits)

lemma write_embeddings_to_pinecone_reports:
  "reports (snd (write_embeddings_to_pinecone w recs vdb t)) = reports t"
  by (simp add: write_embeddings_to_pinecone_def Let_def split: option.split sum.split)

lemma write_embeddings_to_pinecone_cases:
  "(upserts (snd (write_embeddings_to_pinecone w recs vdb t)) = upserts t
      \<and> (\<forall>v. fst (write_embeddings_to_pinecone w recs vdb t) = Inr v \<longrightarrow> v = PNone))
   \<or> (upserts (snd (write_embeddings_to_pinecone w recs vdb t)) = upserts t @ [(index_name vdb, recs)]
      \<and> fst (write_embeddings_to_pinecone w recs vdb t) = index_upsert w (index_name vdb) recs
      \<and> pinecone_Index w (index_name vdb) = Inr True)"
  by (simp add: write_embeddings_to_pinecone_def Let_def split: option.split sum.split)

lemma write_embeddings_to_vector_db_reports:
  "reports (snd (write_embeddings_to_vector_db w em cs vdb bid jid t)) = reports t"
  by (simp add: write_embeddings_to_vector_db_def write_embeddings_to_pinecone_reports split: sum.split)

lemma write_embeddings_to_vector_db_cases:
  "(upserts (snd (write_embeddings_to_vector_db w em cs vdb bid jid t)) = upserts t
      \<and> (\<forall>v. fst (write_embeddings_to_vector_db w em cs vdb bid jid t) = Inr v \<longrightarrow> v = PNone))
   \<or> (\<exists>recs. upserts (snd (write_embeddings_to_vector_db w em cs vdb bid jid t)) = upserts t @ [(index_name vdb, recs)]
      \<and> fst (write_embeddings_to_vector_db w em cs vdb bid jid t) = index_upsert w (index_name vdb) recs
      \<and> vector_db_type vdb = ''PINECONE'' \<and> pinecone_Index w (index_name vdb) = Inr True)"
proof (cases "vector_db_type vdb = ''PINECONE''")
  case False
  then show ?thesis by (simp add: write_embeddings_to_vector_db_def)
next
  case True
  show ?thesis
  proof (cases "create_source_chunk_dict cs em bid jid")
    case (Inl e)
    with True show ?thesis by (simp add: write_embeddings_to_vector_db_def)
  next
    case (Inr recs)
    with True have eq: "write_embeddings_to_vector_db w em cs vdb bid jid t = write_embeddings_to_pinecone w recs vdb t"
      by (simp add: write_embeddings_to_vector_db_def)
    show ?thesis
      using write_embeddings_to_pinecone_cases [of w recs vdb t] True
      unfolding eq by blast
  qed
qed

text \<open>What one run of \<open>embed_openai_batch\<close> can do to the reports and the upserts.\<close>

lemma embed_openai_batch_cases:
  "(upserts (snd (embed_openai_batch w b t)) = upserts t
      \<and> (\<forall>v. fst (embed_openai_batch w b t) = Inr v \<longrightarrow> v = PNone)
      \<and> (reports (snd (embed_openai_batch w b t)) = reports t
         \<or> reports (snd (embed_openai_batch w b t)) = reports t @ give_up_reports w b))
   \<or> (\<exists>recs. upserts (snd (embed_openai_batch w b t)) = upserts t @ [(index_name (vector_db_metadata b), recs)]
      \<and> fst (embed_openai_batch w b t) = index_upsert w (index_name (vector_db_metadata b)) recs
      \<and> reports (snd (embed_openai_batch w b t)) = reports t
      \<and> vector_db_type (vector_db_metadata b) = ''PINECONE''
      \<and> pinecone_Index w (index_name (vector_db_metadata b)) = Inr True)"
proof (cases "chunk_data (source_data b) (chunk_size (embeddings_metadata b)) (chunk_overlap (embeddings_metadata b))")
  case (Inl e)
  then show ?thesis by (simp add: embed_openai_batch_def)
next
  case (Inr cs)
  obtain fl t1 where at: "attempts w b cs [0, 1, 2, 3, 4] None t = (fl, t1)"
    by (cases "attempts w b cs [0, 1, 2, 3, 4] None t")
  have up: "upserts t1 = upserts t"
    using attempts_upserts [of w b cs "[0, 1, 2, 3, 4]" None t] at by simp
  have rep: "reports t1 = reports t \<or> (reports t1 = reports t @ give_up_reports w b \<and> (\<forall>x. fl \<noteq> Falls_through x))"
    using attempts_reports [of w b cs "[0, 1, 2, 3, 4]" None t] at by simp
  show ?thesis
  proof (cases fl)
    case (Raises e)
    with Inr at up rep show ?thesis by (auto simp add: embed_openai_batch_def)
  next
    case (Returns v)
    then have "v = PNone" using attempts_returns [of w b cs "[0, 1, 2, 3, 4]" None t v] at by simp
    with Returns Inr at up rep show ?thesis by (auto simp add: embed_openai_batch_def)
  next
    case (Falls_through ro)
    with rep have rep': "reports t1 = reports t" by simp
    show ?thesis
    proof (cases ro)
      case None
      with Falls_through Inr at up rep' show ?thesis by (simp add: embed_openai_batch_def)
    next
      case (Some response)
      show ?thesis
      proof (cases "response_embedding response")
        case (Inl e)
        with Some Falls_through Inr at up rep' show ?thesis by (simp add: embed_openai_batch_def)
      next
        case (Inr em)
        with Some Falls_through \<open>chunk_data _ _ _ = Inr cs\<close> at
        have eq: "embed_openai_batch w b t =
            write_embeddings_to_vector_db w em cs (vector_db_metadata b) (batch_id b) (job_id b) t1"
          by (simp add: embed_openai_batch_def)
        show ?thesis
          using write_embeddings_to_vector_db_cases [of w em cs "vector_db_metadata b" "batch_id b" "job_id b" t1]
            write_embeddings_to_vector_db_reports [of w em cs "vector_db_metadata b" "batch_id b" "job_id b" t1]
          unfolding eq up rep' by blast
      qed
    qed
  qed
qed

lemma process_batch_open_ai:
  assumes "embeddings_type (embeddings_metadata b) = ''OPEN_AI''"
  shows "snd (process_batch w b t) = snd (embed_openai_batch w b t) @
     (case fst (embed_openai_batch w b t) of
        Inl e \<Rightarrow> [Requests_put (job_id b) FAILED (batch_id b)]
      | Inr v \<Rightarrow>
          Requests_put (job_id b) (if truthy v then COMPLETED else FAILED) (batch_id b) #
          (if requests_put w (length (reports (snd (embed_openai_batch w b t)))) = None then []
           else [Requests_put (job_id b) FAILED (batch_id b)]))"
proof (cases "embed_openai_batch w b t")
  case (Pair r t1)
  then show ?thesis using assms
    by (cases r) (simp_all add: process_batch_def try_block_def update_job_status_def split: option.split)
qed

lemma process_batch_other:
  assumes "embeddings_type (embeddings_metadata b) \<noteq> ''OPEN_AI''"
  shows "process_batch w b t = update_job_status w (job_id b) FAILED (batch_id b) t"
  using assms by (simp add: process_batch_def)

text \<open>Five failed attempts end where the worker gives up.\<close>

lemma attempts_fail_step':
  assumes "attempt_fails w i cs"
  shows "attempts w b cs (i # rest) r t =
     (if i = 4
      then give_up w b (t @ Embedding_create cs # (if attempt_raises w i cs then [Sleep (2 ^ i)] else []))
      else attempts w b cs rest (case openai_create w i cs of Inl e \<Rightarrow> r | Inr x \<Rightarrow> Some x)
             (t @ Embedding_create cs # (if attempt_raises w i cs then [Sleep (2 ^ i)] else [])))"
  using attempts_fail_step [OF assms, of b rest r t] by (simp only: Let_def)

lemma attempts_all_fail:
  assumes "\<forall>i<5. attempt_fails w i cs"
  shows "attempts w b cs [0, 1, 2, 3, 4] r t =
     give_up w b (t @ attempt_events w cs 0 @ attempt_events w cs 1 @ attempt_events w cs 2
                    @ attempt_events w cs 3 @ attempt_events w cs 4)"
proof -
  have f: "attempt_fails w 0 cs" "attempt_fails w 1 cs" "attempt_fails w 2 cs"
    "attempt_fails w 3 cs" "attempt_fails w 4 cs"
    using assms by simp_all
  have n: "(0::nat) \<noteq> 4" "(1::nat) \<noteq> 4" "(2::nat) \<noteq> 4" "(3::nat) \<noteq> 4" by simp_all
  show ?thesis
    unfolding attempt_events_def
    by (simp only: attempts_fail_step' [OF f(1)] attempts_fail_step' [OF f(2)] attempts_fail_step' [OF f(3)]
        attempts_fail_step' [OF f(4)] attempts_fail_step' [OF f(5)] n if_False if_True append_assoc simp_thms)
qed

lemma attempt_events_calls [simp]:
  "embed_calls (attempt_events w cs i) = [cs]"
  "store_calls (attempt_events w cs i) = []"
  "reports (attempt_events w cs i) = []"
  "upserts (attempt_events w cs i) = []"
  "sleeps (attempt_events w cs i) = (if attempt_raises w i cs then [2 ^ i] else [])"
  by (simp_all add: attempt_events_def)

lemma failed_attempts_calls:
  "embed_calls (failed_attempts w cs) = replicate 5 cs"
  "store_calls (failed_attempts w cs) = []"
  by (simp_all add: failed_attempts_def numeral_eq_Suc)

lemma embed_openai_batch_all_fail:
  assumes "chunk_data (source_data b) (chunk_size (embeddings_metadata b)) (chunk_overlap (embeddings_metadata b)) = Inr cs"
    and "\<forall>i<5. attempt_fails w i cs"
  shows "snd (embed_openai_batch w b t) = snd (give_up w b (t @ failed_attempts w cs))"
    and "fst (embed_openai_batch w b t) = Inr v \<Longrightarrow> v = PNone"
proof -
  define t5 where "t5 = t @ failed_attempts w cs"
  have at: "attempts w b cs [0, 1, 2, 3, 4] None t = give_up w b t5"
    using attempts_all_fail [OF assms(2), of b None t] by (simp only: t5_def failed_attempts_def)
  obtain fl t1 where g: "give_up w b t5 = (fl, t1)" by (cases "give_up w b t5")
  have nf: "fl \<noteq> Falls_through x" for x using give_up_flow [of w b t5 x] g by simp
  have rv: "fl = Returns v \<Longrightarrow> v = PNone" for v using give_up_flow_cases [of w b t5 v] g by simp
  have e: "embed_openai_batch w b t =
      (case fl of Raises e \<Rightarrow> (Inl e, t1) | Returns v \<Rightarrow> (Inr v, t1) | Falls_through x \<Rightarrow> (Inl UnboundLocalError, t1))"
  proof -
    have "embed_openai_batch w b t =
      (case (fl, t1) of
         (Raises e, t1) \<Rightarrow> (Inl e, t1)
       | (Returns v, t1) \<Rightarrow> (Inr v, t1)
       | (Falls_through None, t1) \<Rightarrow> (Inl UnboundLocalError, t1)
       | (Falls_through (Some response), t1) \<Rightarrow>
           (case response_embedding response of
              Inl e \<Rightarrow> (Inl e, t1)
            | Inr embeddings \<Rightarrow>
                write_embeddings_to_vector_db w embeddings cs
                  (vector_db_metadata b) (batch_id b) (job_id b) t1))"
      by (simp only: embed_openai_batch_def assms(1) sum.case at g)
    then show ?thesis using nf by (cases fl) auto
  qed
  show "snd (embed_openai_batch w b t) = snd (give_up w b (t @ failed_attempts w cs))"
    unfolding t5_def [symmetric] using nf by (cases fl) (auto simp add: e g)
  show "fst (embed_openai_batch w b t) = Inr v \<Longrightarrow> v = PNone"
    using nf rv by (cases fl) (auto simp add: e)
qed

lemma calls_give_up:
  "embed_calls (snd (give_up w b t)) = embed_calls t"
  "store_calls (snd (give_up w b t)) = store_calls t"
  "sleeps (snd (give_up w b t)) = sleeps t"
  by (simp_all add: give_up_trace split: option.split)

text \<open>Concrete runs.\<close>

declare str_nat.simps [simp del]

lemma demo_chunks: "chunk_data ''abcdefg'' 5 3 = Inr [''abcde'', ''cdefg'', ''efg'', ''g'']"
  by (simp add: chunk_data_def py_range_def range_up.simps py_slice_def slice_index_def)

lemma str_nat_small:
  "str_nat 0 = ''0''" "str_nat (Suc 0) = ''1''" "str_nat (Suc (Suc 0)) = ''2''"
  "str_nat (Suc (Suc (Suc 0))) = ''3''"
  by (subst str_nat.simps, simp add: digit_char_def)+

lemma response_embedding_response_of: "response_embedding (response_of e) = Inr e"
  by (simp add: response_embedding_def response_of_def index_seq_def)

lemma demo_run_completed:
  "snd (process_batch (stub_world four_values) demo_batch []) =
     [Embedding_create [''abcde'', ''cdefg'', ''efg'', ''g''],
      Pinecone_init ''pk'' ''env'',
      Pinecone_Index ''idx'',
      Index_upsert ''idx''
        [\<lparr>rec_id = ''7_7-0_0'', rec_values = PNum 1, rec_source_text = ''abcde''\<rparr>,
         \<lparr>rec_id = ''7_7-0_1'', rec_values = PNum 2, rec_source_text = ''cdefg''\<rparr>,
         \<lparr>rec_id = ''7_7-0_2'', rec_values = PNum 3, rec_source_text = ''efg''\<rparr>,
         \<lparr>rec_id = ''7_7-0_3'', rec_values = PNum 4, rec_source_text = ''g''\<rparr>],
      Requests_put ''7'' COMPLETED ''7-0'']"
  by (simp add: process_batch_def try_block_def embed_openai_batch_def demo_batch_def stub_world_def
      four_values_def demo_chunks response_embedding_response_of write_embeddings_to_vector_db_def
      create_source_chunk_dict_def write_embeddings_to_pinecone_def update_job_status_def
      str_nat_small)

text \<open>
  The calls to the provider and the sleeps of a run: at most five calls, all with the same
  chunks, and a sleep of \<open>2 ^ i\<close> after exactly those attempts \<open>i\<close> that raised.
\<close>

lemma attempts_calls_and_sleeps:
  "\<exists>n\<le>length is.
      embed_calls (snd (attempts w b cs is r t)) = embed_calls t @ replicate n cs
    \<and> sleeps (snd (attempts w b cs is r t))
        = sleeps t @ map (\<lambda>i. 2 ^ i) (filter (\<lambda>i. attempt_raises w i cs) (take n is))"
proof (induction "is" arbitrary: r t)
  case Nil
  show ?case by simp
next
  case (Cons i rest)
  show ?case
  proof (cases "attempt_fails w i cs")
    case False
    then obtain x where "attempts w b cs (i # rest) r t = (Falls_through (Some x), t @ [Embedding_create cs])"
      and "openai_create w i cs = Inr x"
      using attempts_success_step [of w i cs b rest r t] by blast
    moreover from False \<open>openai_create w i cs = Inr x\<close> have "\<not> attempt_raises w i cs"
      by (auto simp add: attempt_fails_def attempt_raises_def split: sum.splits)
    ultimately show ?thesis by (intro exI [of _ 1]) simp
  next
    case True
    define t' where "t' = t @ attempt_events w cs i"
    define r' where "r' = (case openai_create w i cs of Inl e \<Rightarrow> r | Inr x \<Rightarrow> Some x)"
    have st: "attempts w b cs (i # rest) r t =
        (if i = 4 then give_up w b t' else attempts w b cs rest r' t')"
      using attempts_fail_step' [OF True, of b rest r t] by (simp only: t'_def r'_def attempt_events_def)
    have ev: "embed_calls t' = embed_calls t @ [cs]"
      "sleeps t' = sleeps t @ map (\<lambda>i. 2 ^ i) (filter (\<lambda>i. attempt_raises w i cs) [i])"
      by (simp_all add: t'_def)
    show ?thesis
    proof (cases "i = 4")
      case True
      show ?thesis
        unfolding st using True ev by (intro exI [of _ 1]) (simp add: calls_give_up)
    next
      case False
      from Cons.IH [of r' t'] obtain n where n: "n \<le> length rest"
        "embed_calls (snd (attempts w b cs rest r' t')) = embed_calls t' @ replicate n cs"
        "sleeps (snd (attempts w b cs rest r' t'))
           = sleeps t' @ map (\<lambda>i. 2 ^ i) (filter (\<lambda>i. attempt_raises w i cs) (take n rest))"
        by blast
      show ?thesis
        unfolding st using False n ev
        by (intro exI [of _ "Suc n"]) (simp add: replicate_app_Cons_same)
    qed
  qed
qed

lemma write_embeddings_to_vector_db_calls:
  "embed_calls (snd (write_embeddings_to_vector_db w em cs vdb bid jid t)) = embed_calls t"
  "sleeps (snd (write_embeddings_to_vector_db w em cs vdb bid jid t)) = sleeps t"
  by (simp_all add: write_embeddings_to_vector_db_def write_embeddings_to_pinecone_def Let_def
      split: sum.split option.split)

lemma embed_openai_batch_calls_and_sleeps:
  "embed_calls (snd (embed_openai_batch w b t)) = embed_calls t \<and> sleeps (snd (embed_openai_batch w b t)) = sleeps t
   \<or> (\<exists>cs n. chunk_data (source_data b) (chunk_size (embeddings_metadata b)) (chunk_overlap (embeddings_metadata b)) = Inr cs
        \<and> n \<le> 5
        \<and> embed_calls (snd (embed_openai_batch w b t)) = embed_calls t @ replicate n cs
        \<and> sleeps (snd (embed_openai_batch w b t))
             = sleeps t @ map (\<lambda>i. 2 ^ i) (filter (\<lambda>i. attempt_raises w i cs) (take n [0, 1, 2, 3, 4])))"
proof (cases "chunk_data (source_data b) (chunk_size (embeddings_metadata b)) (chunk_overlap (embeddings_metadata b))")
  case (Inl e)
  then show ?thesis by (simp add: embed_openai_batch_def)
next
  case (Inr cs)
  obtain fl t1 where at: "attempts w b cs [0, 1, 2, 3, 4] None t = (fl, t1)"
    by (cases "attempts w b cs [0, 1, 2, 3, 4] None t")
  from attempts_calls_and_sleeps [of "[0, 1, 2, 3, 4]" w b cs None t] at
  obtain n where n: "n \<le> 5" "embed_calls t1 = embed_calls t @ replicate n cs"
    "sleeps t1 = sleeps t @ map (\<lambda>i. 2 ^ i) (filter (\<lambda>i. attempt_raises w i cs) (take n [0, 1, 2, 3, 4]))"
    by auto
  have "embed_calls (snd (embed_openai_batch w b t)) = embed_calls t1
      \<and> sleeps (snd (embed_openai_batch w b t)) = sleeps t1"
    using Inr at
    by (simp add: embed_openai_batch_def write_embeddings_to_vector_db_calls
        split: flow.split option.split sum.split del: attempts.simps)
  with n Inr show ?thesis by auto
qed

lemma process_batch_at_most_five_attempts:
  "length (embed_calls (snd (process_batch w b t))) \<le> length (embed_calls t) + 5"
proof (cases "embeddings_type (embeddings_metadata b) = ''OPEN_AI''")
  case False
  then show ?thesis by (simp add: process_batch_other)
next
  case True
  have "embed_calls (snd (process_batch w b t)) = embed_calls (snd (embed_openai_batch w b t))"
    by (simp add: process_batch_open_ai [OF True] split: sum.split)
  with embed_openai_batch_calls_and_sleeps [of w b t] show ?thesis by auto
qed

lemma process_batch_sleeps_after_raises:
  assumes "embeddings_type (embeddings_metadata b) = ''OPEN_AI''"
    and "chunk_data (source_data b) (chunk_size (embeddings_metadata b)) (chunk_overlap (embeddings_metadata b)) = Inr cs"
  shows "\<exists>n\<le>5. embed_calls (snd (process_batch w b t)) = embed_calls t @ replicate n cs
        \<and> sleeps (snd (process_batch w b t))
             = sleeps t @ map (\<lambda>i. 2 ^ i) (filter (\<lambda>i. attempt_raises w i cs) (take n [0, 1, 2, 3, 4]))"
proof -
  have "embed_calls (snd (process_batch w b t)) = embed_calls (snd (embed_openai_batch w b t))"
    "sleeps (snd (process_batch w b t)) = sleeps (snd (embed_openai_batch w b t))"
    by (simp_all add: process_batch_open_ai [OF assms(1)] split: sum.split)
  with embed_openai_batch_calls_and_sleeps [of w b t] assms(2) show ?thesis
    by (auto intro: exI [of _ 0])
qed

section \<open>Properties of the status aggregator\<close>

lemma aggregate_failed_report:
  assumes "aggregate j current FAILED = Inr (j', st, oc)"
  shows "status j' = JOB_FAILED"
  using assms by (auto simp add: aggregate_def Let_def split: if_splits)

lemma aggregate_keeps_failed:
  assumes "aggregate j current new = Inr (j', st, oc)" and "status j = JOB_FAILED"
  shows "status j' = JOB_FAILED"
  using assms by (auto simp add: aggregate_def Let_def split: if_splits)

lemma update_status_failed_report:
  assumes "update_status s jid bid FAILED = Inr (s', oc)"
  shows "job_status_of s' jid = Some JOB_FAILED"
proof -
  from assms obtain j current j' st where
    a: "aggregate j current FAILED = Inr (j', st, oc)"
    and s': "s' = s\<lparr>jobs := (jobs s)(jid \<mapsto> j'), batches := (batches s)(bid \<mapsto> st)\<rparr>"
    by (auto simp add: update_status_def split: option.splits sum.splits)
  from aggregate_failed_report [OF a] s' show ?thesis by (simp add: job_status_of_def)
qed

lemma update_status_keeps_failed:
  assumes "update_status s jid bid new = Inr (s', oc)"
    and "job_status_of s jid = Some JOB_FAILED"
  shows "job_status_of s' jid = Some JOB_FAILED"
proof -
  from assms(1) obtain j current j' st where
    j: "jobs s jid = Some j"
    and a: "aggregate j current new = Inr (j', st, oc)"
    and s': "s' = s\<lparr>jobs := (jobs s)(jid \<mapsto> j'), batches := (batches s)(bid \<mapsto> st)\<rparr>"
    by (auto simp add: update_status_def split: option.splits sum.splits)
  from assms(2) j have "status j = JOB_FAILED" by (simp add: job_status_of_def)
  from aggregate_keeps_failed [OF a this] s' show ?thesis by (simp add: job_status_of_def)
qed

lemma apply_updates_keeps_failed:
  assumes "job_status_of s jid = Some JOB_FAILED"
  shows "job_status_of (apply_updates s jid us) jid = Some JOB_FAILED"
  using assms
proof (induction us arbitrary: s)
  case Nil
  then show ?case by simp
next
  case (Cons u us)
  obtain bid st where u: "u = (bid, st)" by (cases u)
  show ?case
  proof (cases "update_status s jid bid st")
    case (Inl e)
    with Cons u show ?thesis by simp
  next
    case (Inr r)
    obtain s' oc where r: "r = (s', oc)" by (cases r)
    from update_status_keeps_failed [of s jid bid st s' oc] Inr r Cons.prems
    have "job_status_of s' jid = Some JOB_FAILED" by simp
    from Cons.IH [OF this] Inr r u show ?thesis by simp
  qed
qed

lemma demo_store_failed:
  "update_status demo_store ''j'' ''j-0'' FAILED =
     Inr (\<lparr>jobs = [''j'' \<mapsto> \<lparr>webhook_url = ''hook'', total_batches = 3, batches_processed = 1,
                         batches_succeeded = 0, status = JOB_FAILED\<rparr>],
           batches = [''j-0'' \<mapsto> FAILED, ''j-1'' \<mapsto> NOT_STARTED, ''j-2'' \<mapsto> NOT_STARTED]\<rparr>, Job_failed)"
  by (simp add: update_status_def demo_store_def aggregate_def fun_upd_twist)

section \<open>The claims about the worker\<close>

text \<open>
  Claim C7. For every batch whose \<^verbatim>\<open>vector_db_type\<close> is not the recognized backend
  \<^verbatim>\<open>'PINECONE'\<close>, or whose target index does not exist (\<^verbatim>\<open>pinecone.Index\<close> hands back a
  falsy index, the only existence test the worker makes), one run of \<open>process_batch\<close>
  performs no upsert, and the last thing it does is to report the batch \<open>FAILED\<close>. This
  holds whatever the provider, the store and the status endpoint do.
\<close>

theorem process_batch_store_unavailable:
  assumes "vector_db_type (vector_db_metadata b) \<noteq> ''PINECONE''
           \<or> pinecone_Index w (index_name (vector_db_metadata b)) = Inr False"
  shows "upserts (snd (process_batch w b t)) = upserts t
       \<and> last (snd (process_batch w b t)) = Requests_put (job_id b) FAILED (batch_id b)"
proof (cases "embeddings_type (embeddings_metadata b) = ''OPEN_AI''")
  case False
  then show ?thesis by (simp add: process_batch_other)
next
  case True
  from embed_openai_batch_cases [of w b t] assms
  have up: "upserts (snd (embed_openai_batch w b t)) = upserts t"
    and none: "\<And>v. fst (embed_openai_batch w b t) = Inr v \<Longrightarrow> v = PNone"
    by auto
  show ?thesis
  proof (cases "fst (embed_openai_batch w b t)")
    case (Inl e)
    then show ?thesis by (simp add: process_batch_open_ai [OF True] up)
  next
    case (Inr v)
    with none have "v = PNone" by simp
    with Inr show ?thesis by (simp add: process_batch_open_ai [OF True] up)
  qed
qed

theorem process_batch_store_unavailable_witness:
  "upserts (snd (process_batch ((stub_world four_values)\<lparr>pinecone_Index := (\<lambda>name. Inr False)\<rparr>) demo_batch [])) = []
   \<and> last (snd (process_batch ((stub_world four_values)\<lparr>pinecone_Index := (\<lambda>name. Inr False)\<rparr>) demo_batch []))
       = Requests_put ''7'' FAILED ''7-0''"
  using process_batch_store_unavailable
    [of demo_batch "(stub_world four_values)\<lparr>pinecone_Index := (\<lambda>name. Inr False)\<rparr>" "[]"]
  by (simp add: demo_batch_def stub_world_def)

text \<open>
  Claim C9. For every batch with \<^verbatim>\<open>embeddings_type\<close> \<^verbatim>\<open>'OPEN_AI'\<close>, if no status report
  raises, one run of \<open>process_batch\<close> sends exactly one status report, for this job and
  batch, with status \<open>COMPLETED\<close> or \<open>FAILED\<close>, whatever else happens during the run
  (exhausted retries and exceptions included). \<^verbatim>\<open>BatchStatus\<close> is taken with the members
  of the spec's data model, so that \<^verbatim>\<open>BatchStatus.Failed\<close> does not exist.
\<close>

theorem process_batch_reports_once:
  assumes "embeddings_type (embeddings_metadata b) = ''OPEN_AI''"
    and "\<forall>n. requests_put w n = None"
    and "BatchStatus_Failed w = None"
  shows "\<exists>st. reports (snd (process_batch w b t)) = reports t @ [(job_id b, st, batch_id b)]
            \<and> (st = COMPLETED \<or> st = FAILED)"
proof -
  have "give_up_reports w b = []" using assms(3) by (simp add: give_up_reports_def)
  with embed_openai_batch_cases [of w b t]
  have rep: "reports (snd (embed_openai_batch w b t)) = reports t" by auto
  show ?thesis
    using assms(2)
    by (cases "fst (embed_openai_batch w b t)") (simp_all add: process_batch_open_ai [OF assms(1)] rep)
qed

theorem process_batch_reports_once_witness:
  "reports (snd (process_batch (stub_world four_values) demo_batch [])) = [(''7'', COMPLETED, ''7-0'')]"
proof -
  have "embeddings_type (embeddings_metadata demo_batch) = ''OPEN_AI''"
    and "\<forall>n. requests_put (stub_world four_values) n = None"
    and "BatchStatus_Failed (stub_world four_values) = None"
    by (simp_all add: demo_batch_def stub_world_def)
  from process_batch_reports_once [OF this, of "[]"] show ?thesis
    by (simp add: demo_run_completed)
qed

text \<open>
  Claim C10. One run of \<open>process_batch\<close> reports the batch \<open>COMPLETED\<close> exactly when an
  upsert was invoked and returned a truthy acknowledgement; in every other outcome the
  last thing it does is to report the batch \<open>FAILED\<close>. (Should \<^verbatim>\<open>BatchStatus.Failed\<close>
  exist, it is assumed not to be an alias of \<open>COMPLETED\<close>.)
\<close>

theorem process_batch_completed_iff_acked:
  assumes "BatchStatus_Failed w \<noteq> Some COMPLETED"
  shows "((job_id b, COMPLETED, batch_id b) \<in> set (reports (snd (process_batch w b [])))
           \<longleftrightarrow> acked w (snd (process_batch w b [])))
       \<and> (\<not> acked w (snd (process_batch w b []))
           \<longrightarrow> last (snd (process_batch w b [])) = Requests_put (job_id b) FAILED (batch_id b))"
proof (cases "embeddings_type (embeddings_metadata b) = ''OPEN_AI''")
  case False
  then show ?thesis by (simp add: process_batch_other acked_def)
next
  case True
  have gu: "(job_id b, COMPLETED, batch_id b) \<notin> set (give_up_reports w b)"
    using assms by (auto simp add: give_up_reports_def split: option.splits)
  let ?e = "embed_openai_batch w b []"
  from embed_openai_batch_cases [of w b "[]"]
  consider (no_upsert) "upserts (snd ?e) = []" "\<And>v. fst ?e = Inr v \<Longrightarrow> v = PNone"
      "reports (snd ?e) = [] \<or> reports (snd ?e) = give_up_reports w b"
    | (upsert) recs where "upserts (snd ?e) = [(index_name (vector_db_metadata b), recs)]"
      "fst ?e = index_upsert w (index_name (vector_db_metadata b)) recs" "reports (snd ?e) = []"
    by auto
  then show ?thesis
  proof cases
    case no_upsert
    show ?thesis
    proof (cases "fst ?e")
      case (Inl e)
      with no_upsert gu show ?thesis
        by (auto simp add: process_batch_open_ai [OF True] acked_def)
    next
      case (Inr v)
      with no_upsert(2) have "v = PNone" by simp
      with Inr no_upsert gu show ?thesis
        by (auto simp add: process_batch_open_ai [OF True] acked_def)
    qed
  next
    case upsert
    show ?thesis
    proof (cases "index_upsert w (index_name (vector_db_metadata b)) recs")
      case (Inl e)
      then have "fst ?e = Inl e" using upsert(2) by simp
      with Inl upsert(1,3) show ?thesis
        by (simp add: process_batch_open_ai [OF True] acked_def)
    next
      case (Inr v)
      then have "fst ?e = Inr v" using upsert(2) by simp
      with Inr upsert(1,3) show ?thesis
        by (simp add: process_batch_open_ai [OF True] acked_def)
    qed
  qed
qed

theorem process_batch_completed_iff_acked_witness:
  "(''7'', COMPLETED, ''7-0'') \<in> set (reports (snd (process_batch (stub_world four_values) demo_batch [])))
   \<and> acked (stub_world four_values) (snd (process_batch (stub_world four_values) demo_batch []))"
proof -
  have a: "acked (stub_world four_values) (snd (process_batch (stub_world four_values) demo_batch []))"
    unfolding demo_run_completed by (simp add: acked_def stub_world_def)
  have ids: "job_id demo_batch = ''7''" "batch_id demo_batch = ''7-0''"
    by (simp_all add: demo_batch_def)
  have "BatchStatus_Failed (stub_world four_values) \<noteq> Some COMPLETED"
    by (simp add: stub_world_def)
  from process_batch_completed_iff_acked [OF this, of demo_batch] a show ?thesis
    by (simp add: ids)
qed

text \<open>
  Claim C3. For every batch with \<^verbatim>\<open>embeddings_type\<close> \<^verbatim>\<open>'OPEN_AI'\<close> whose five embedding
  attempts all fail, one run of \<open>process_batch\<close> makes exactly the five calls to the
  provider, makes no call at all to the vector store (so no upsert), and the last thing
  it does is to report the batch \<open>FAILED\<close>.
\<close>

theorem process_batch_retries_exhausted:
  assumes "embeddings_type (embeddings_metadata b) = ''OPEN_AI''"
    and "chunk_data (source_data b) (chunk_size (embeddings_metadata b)) (chunk_overlap (embeddings_metadata b)) = Inr cs"
    and "\<forall>i<5. attempt_fails w i cs"
  shows "embed_calls (snd (process_batch w b t)) = embed_calls t @ replicate 5 cs
       \<and> store_calls (snd (process_batch w b t)) = store_calls t
       \<and> last (snd (process_batch w b t)) = Requests_put (job_id b) FAILED (batch_id b)"
proof (cases "fst (embed_openai_batch w b t)")
  case (Inl e)
  then show ?thesis
    by (simp add: process_batch_open_ai [OF assms(1)] embed_openai_batch_all_fail(1) [OF assms(2,3)] calls_give_up
        failed_attempts_calls)
next
  case (Inr v)
  then have "v = PNone" using embed_openai_batch_all_fail(2) [OF assms(2,3)] by simp
  with Inr show ?thesis
    by (simp add: process_batch_open_ai [OF assms(1)] embed_openai_batch_all_fail(1) [OF assms(2,3)] calls_give_up
        failed_attempts_calls)
qed

theorem process_batch_retries_exhausted_witness:
  "embed_calls (snd (process_batch (stub_world (\<lambda>i. Inl RemoteError)) demo_batch []))
      = replicate 5 [''abcde'', ''cdefg'', ''efg'', ''g'']
   \<and> store_calls (snd (process_batch (stub_world (\<lambda>i. Inl RemoteError)) demo_batch [])) = []
   \<and> last (snd (process_batch (stub_world (\<lambda>i. Inl RemoteError)) demo_batch [])) = Requests_put ''7'' FAILED ''7-0''"
  using process_batch_retries_exhausted [of demo_batch "[''abcde'', ''cdefg'', ''efg'', ''g'']" "stub_world (\<lambda>i. Inl RemoteError)" "[]"]
  by (simp add: demo_batch_def stub_world_def demo_chunks attempt_fails_def)

text \<open>
  Claim C8. For every batch whose \<^verbatim>\<open>embeddings_type\<close> is not \<^verbatim>\<open>'OPEN_AI'\<close>, a run of
  \<open>process_batch\<close> is the single call of \<open>update_job_status\<close> with \<open>FAILED\<close>: the only thing
  it does is that report. The provider is not called, nothing is written to the vector
  store, and the data is not chunked (the run below succeeds with a chunk size equal to
  the overlap, on which chunking would raise).
\<close>

theorem process_batch_unsupported_type:
  assumes "embeddings_type (embeddings_metadata b) \<noteq> ''OPEN_AI''"
  shows "process_batch w b t = update_job_status w (job_id b) FAILED (batch_id b) t
       \<and> snd (process_batch w b t) = t @ [Requests_put (job_id b) FAILED (batch_id b)]"
  using assms by (simp add: process_batch_def)

theorem process_batch_unsupported_type_witness:
  "snd (process_batch (stub_world (\<lambda>i. Inl RemoteError))
          (demo_batch\<lparr>embeddings_metadata :=
             \<lparr>embeddings_type = ''COHERE'', em_api_key = ''sk'', chunk_size = 3, chunk_overlap = 3\<rparr>\<rparr>) [])
     = [Requests_put ''7'' FAILED ''7-0'']"
  using process_batch_unsupported_type [of "demo_batch\<lparr>embeddings_metadata :=
             \<lparr>embeddings_type = ''COHERE'', em_api_key = ''sk'', chunk_size = 3, chunk_overlap = 3\<rparr>\<rparr>"
          "stub_world (\<lambda>i. Inl RemoteError)" "[]"]
  by (simp add: demo_batch_def)

text \<open>
  Claim C2, at an input where the code departs from it. The provider's first response
  carries an empty embedding, which the worker counts as a failed attempt (it calls
  again); the second response is usable. The two calls follow each other with no sleep
  in between: back-off happens only in the \<^verbatim>\<open>except\<close> handler.
\<close>

theorem falsy_embedding_retried_without_sleep:
  "snd (process_batch (stub_world empty_then_ok) demo_batch []) =
     [Embedding_create [''abcde'', ''cdefg'', ''efg'', ''g''],
      Embedding_create [''abcde'', ''cdefg'', ''efg'', ''g''],
      Pinecone_init ''pk'' ''env'',
      Pinecone_Index ''idx'',
      Index_upsert ''idx''
        [\<lparr>rec_id = ''7_7-0_0'', rec_values = PNum 1, rec_source_text = ''abcde''\<rparr>,
         \<lparr>rec_id = ''7_7-0_1'', rec_values = PNum 2, rec_source_text = ''cdefg''\<rparr>,
         \<lparr>rec_id = ''7_7-0_2'', rec_values = PNum 3, rec_source_text = ''efg''\<rparr>,
         \<lparr>rec_id = ''7_7-0_3'', rec_values = PNum 4, rec_source_text = ''g''\<rparr>],
      Requests_put ''7'' COMPLETED ''7-0'']"
  by (simp add: process_batch_def try_block_def embed_openai_batch_def demo_batch_def stub_world_def
      empty_then_ok_def four_values_def demo_chunks response_embedding_response_of
      write_embeddings_to_vector_db_def
      create_source_chunk_dict_def write_embeddings_to_pinecone_def update_job_status_def
      str_nat_small)

text \<open>
  Claim C6, at an input where the code departs from it. The data gives four chunks and
  the provider answers as it should, with one data item per chunk, each holding an
  embedding vector (here of five numbers). The worker takes
  \<^verbatim>\<open>response["data"][0]["embedding"]\<close>, the vector of the first item alone, as the sequence
  of embeddings: record \<open>i\<close> gets the \<open>i\<close>-th number of that vector as its values, not
  the vector of chunk \<open>i\<close>; the vectors of the other three items are never used, and the
  batch is reported \<open>COMPLETED\<close>.
\<close>

theorem record_values_are_numbers_of_first_vector:
  "snd (process_batch (stub_world one_vector_per_chunk) demo_batch []) =
     [Embedding_create [''abcde'', ''cdefg'', ''efg'', ''g''],
      Pinecone_init ''pk'' ''env'',
      Pinecone_Index ''idx'',
      Index_upsert ''idx''
        [\<lparr>rec_id = ''7_7-0_0'', rec_values = PNum 1, rec_source_text = ''abcde''\<rparr>,
         \<lparr>rec_id = ''7_7-0_1'', rec_values = PNum 2, rec_source_text = ''cdefg''\<rparr>,
         \<lparr>rec_id = ''7_7-0_2'', rec_values = PNum 3, rec_source_text = ''efg''\<rparr>,
         \<lparr>rec_id = ''7_7-0_3'', rec_values = PNum 4, rec_source_text = ''g''\<rparr>],
      Requests_put ''7'' COMPLETED ''7-0'']
   \<and> rec_values \<lparr>rec_id = ''7_7-0_1'', rec_values = PNum 2, rec_source_text = ''cdefg''\<rparr>
       \<noteq> PList [PNum 11, PNum 12, PNum 13, PNum 14, PNum 15]"
  by (simp add: process_batch_def try_block_def embed_openai_batch_def demo_batch_def stub_world_def
      one_vector_per_chunk_def data_item_def demo_chunks response_embedding_def index_seq_def
      write_embeddings_to_vector_db_def create_source_chunk_dict_def write_embeddings_to_pinecone_def
      update_job_status_def str_nat_small)

section \<open>The claims about the chunker\<close>

text \<open>
  Claim C4, at an input where the code departs from it. With size 5 and overlap 3 the
  windows of a text of length 7 start at 0, 2, 4 and 6: the third window is not the last
  and has length 3, not 5, and it shares one character with the fourth, not three.
\<close>

theorem chunk_data_short_inner_window:
  "chunk_data ''abcdefg'' 5 3 = Inr [''abcde'', ''cdefg'', ''efg'', ''g'']
   \<and> map length (butlast [''abcde'', ''cdefg'', ''efg'', ''g'']) = [5, 5, 3]
   \<and> drop (length ''efg'' - 3) ''efg'' \<noteq> take 3 ''g''"
  by (simp add: demo_chunks)

text \<open>
  Claim C4, as the code has it. For \<open>0 \<le> overlap < size\<close>, with \<open>step = size - overlap\<close>,
  \<open>chunk_data\<close> returns, in order, the windows \<^verbatim>\<open>data[k*step : k*step + size]\<close> for exactly
  the \<open>k\<close> with \<open>k * step < len(data)\<close>. Window \<open>k\<close> has length
  \<open>min size (len(data) - k * step)\<close>, so it has length \<open>size\<close> unless it reaches the end of
  the data (which several trailing windows may do). Consecutive windows \<open>k\<close>, \<open>k + 1\<close>
  share the characters after the first \<open>step\<close> of window \<open>k\<close>; there are
  \<open>min overlap (len(data) - (k + 1) * step)\<close> of them, which is \<open>overlap\<close> when window \<open>k\<close> is
  full. The first \<open>step\<close> characters of the windows, concatenated, are the data, so the
  windows cover it. Empty data gives no window and no error.
\<close>

theorem chunk_data_overlapping_windows:
  assumes "0 \<le> ov" and "ov < sz"
  shows "\<exists>ws. chunk_data data sz ov = Inr ws
     \<and> ws = map (\<lambda>k. py_slice data (int (k * nat (sz - ov))) (int (k * nat (sz - ov)) + sz)) [0..<length ws]
     \<and> (\<forall>k. k < length ws \<longleftrightarrow> k * nat (sz - ov) < length data)
     \<and> (\<forall>k<length ws. length (ws ! k) = min (nat sz) (length data - k * nat (sz - ov)))
     \<and> (\<forall>k. Suc k < length ws \<longrightarrow>
           drop (nat (sz - ov)) (ws ! k) = take (length (ws ! k) - nat (sz - ov)) (ws ! Suc k)
         \<and> length (ws ! k) - nat (sz - ov) = min (nat ov) (length data - Suc k * nat (sz - ov)))
     \<and> concat (map (take (nat (sz - ov))) ws) = data
     \<and> (data = [] \<longrightarrow> ws = [])"
proof -
  define step where "step = nat (sz - ov)"
  define ws where "ws = windows data (nat sz) step"
  have step: "0 < step" "step \<le> nat sz" "nat sz - step = nat ov"
    using assms by (simp_all add: step_def)
  have res: "chunk_data data sz ov = Inr ws"
    using chunk_data_windows [OF assms] by (simp add: ws_def step_def)
  have shape: "ws = map (\<lambda>k. py_slice data (int (k * step)) (int (k * step) + sz)) [0..<length ws]"
  proof -
    have "0 \<le> sz" using assms by simp
    then show ?thesis
      by (simp add: ws_def windows_def py_slice_window [unfolded of_nat_mult])
  qed
  have idx: "k < length ws \<longleftrightarrow> k * step < length data" for k
    unfolding ws_def by (rule windows_index [OF step(1)])
  have len: "length (ws ! k) = min (nat sz) (length data - k * step)" if "k < length ws" for k
    using that unfolding ws_def by (rule length_nth_windows)
  have shared: "drop step (ws ! k) = take (length (ws ! k) - step) (ws ! Suc k)
      \<and> length (ws ! k) - step = min (nat ov) (length data - Suc k * step)" if "Suc k < length ws" for k
  proof
    show "drop step (ws ! k) = take (length (ws ! k) - step) (ws ! Suc k)"
      using that unfolding ws_def by (rule windows_shared)
    have "k < length ws" using that by simp
    then have "length (ws ! k) - step = min (nat sz) (length data - k * step) - step"
      by (simp only: len)
    also have "\<dots> = min (nat sz - step) (length data - k * step - step)" by simp
    also have "\<dots> = min (nat ov) (length data - Suc k * step)" by (simp add: step(3))
    finally show "length (ws ! k) - step = min (nat ov) (length data - Suc k * step)" .
  qed
  have cover: "concat (map (take step) ws) = data"
    unfolding ws_def by (rule windows_cover [OF step(1,2)])
  have empty: "data = [] \<longrightarrow> ws = []"
    using step(1) by (simp add: ws_def windows_def)
  show ?thesis
    unfolding step_def [symmetric]
    using res shape idx len shared cover empty by blast
qed

theorem chunk_data_overlapping_windows_witness:
  "chunk_data ''abcdefg'' 5 3 = Inr [''abcde'', ''cdefg'', ''efg'', ''g'']
   \<and> concat (map (take 2) [''abcde'', ''cdefg'', ''efg'', ''g'']) = ''abcdefg''
   \<and> drop 2 ''cdefg'' = take (5 - 2) ''efg''
   \<and> length ''efg'' - 2 = min (3::nat) (7 - 3 * 2)"
proof -
  from chunk_data_overlapping_windows [of 3 5 "''abcdefg''"]
  obtain ws where ws: "chunk_data ''abcdefg'' 5 3 = Inr ws"
    and cover: "concat (map (take (nat (5 - 3))) ws) = ''abcdefg''"
    and shared: "\<forall>k. Suc k < length ws \<longrightarrow>
           drop (nat (5 - 3)) (ws ! k) = take (length (ws ! k) - nat (5 - 3)) (ws ! Suc k)
         \<and> length (ws ! k) - nat (5 - 3) = min (nat 3) (length ''abcdefg'' - Suc k * nat (5 - 3))"
    by auto
  from ws have eq: "ws = [''abcde'', ''cdefg'', ''efg'', ''g'']" by (simp add: demo_chunks)
  from shared [rule_format, of 1] show ?thesis
    using cover unfolding eq by (simp add: demo_chunks)
qed

text \<open>
  Claim C5, at an input where the code departs from it: with a size below the overlap
  the step is negative, the range is empty, and \<open>chunk_data\<close> returns the empty list.
\<close>

theorem chunk_data_size_below_overlap_returns:
  "chunk_data ''abc'' 1 2 = Inr []"
  by (simp add: chunk_data_def py_range_def range_down.simps)

text \<open>
  Claim C5, as the code has it. For \<open>0 \<le> overlap\<close> and \<open>size \<le> overlap\<close> the chunker never
  loops (it is a total function): with \<open>size = overlap\<close> the zero step makes \<^verbatim>\<open>range\<close>
  raise \<^verbatim>\<open>ValueError\<close>, and with \<open>size < overlap\<close> it returns the empty list and raises
  nothing.
\<close>

theorem chunk_data_nonpositive_step:
  assumes "0 \<le> ov" and "sz \<le> ov"
  shows "chunk_data data sz ov = (if sz = ov then Inl ValueError else Inr [])"
  using assms(2) by (simp add: chunk_data_def py_range_def range_down_empty)

theorem chunk_data_nonpositive_step_witness:
  "chunk_data ''abc'' 2 2 = Inl ValueError \<and> chunk_data ''abc'' 1 2 = Inr []"
  using chunk_data_nonpositive_step [where ov = 2 and sz = 2 and data = "''abc''"]
    chunk_data_nonpositive_step [where ov = 2 and sz = 1 and data = "''abc''"]
  by simp

section \<open>The claim about the status aggregator\<close>

text \<open>
  Claim C1. Once a status update has set a job's status to \<open>FAILED\<close>, the status is
  \<open>FAILED\<close> after every later status update for that job, and so after any sequence of
  them, whether they are applied or rejected; in particular a later \<open>COMPLETED\<close> report
  for another batch of the job, when it is applied, leaves the job \<open>FAILED\<close>.
\<close>

theorem failed_job_stays_failed:
  assumes "update_status s jid bid FAILED = Inr (s1, oc)"
  shows "job_status_of s1 jid = Some JOB_FAILED
       \<and> job_status_of (apply_updates s1 jid us) jid = Some JOB_FAILED
       \<and> (\<forall>bid' s2 oc'. update_status s1 jid bid' COMPLETED = Inr (s2, oc')
             \<longrightarrow> job_status_of s2 jid = Some JOB_FAILED)"
proof -
  have f: "job_status_of s1 jid = Some JOB_FAILED"
    using assms by (rule update_status_failed_report)
  moreover have "job_status_of (apply_updates s1 jid us) jid = Some JOB_FAILED"
    using f by (rule apply_updates_keeps_failed)
  moreover have "job_status_of s2 jid = Some JOB_FAILED"
    if "update_status s1 jid bid' COMPLETED = Inr (s2, oc')" for bid' s2 oc'
    using that f by (rule update_status_keeps_failed)
  ultimately show ?thesis by blast
qed

theorem failed_job_stays_failed_witness:
  "job_status_of
     (apply_updates demo_store ''j'' [(''j-0'', FAILED), (''j-1'', COMPLETED), (''j-0'', COMPLETED), (''j-2'', COMPLETED)])
     ''j'' = Some JOB_FAILED"
proof -
  from failed_job_stays_failed [OF demo_store_failed,
      of "[(''j-1'', COMPLETED), (''j-0'', COMPLETED), (''j-2'', COMPLETED)]"]
  show ?thesis by (simp add: demo_store_failed)
qed

end
